theory Spec2Isabelle
  imports Main "HOL-Library.AList"
begin

section \<open>Validators of matlab-proxy (\<^verbatim>\<open>matlab_proxy/util/mwi/validators.py\<close>)\<close>

text \<open>
  A validator takes a raw configuration value and either returns it (sometimes
  normalised) or raises. An exception is a value \<open>Inl e\<close> of the result type
  \<open>error + 'a\<close>; a returned value is \<open>Inr v\<close>. Python's \<open>None\<close> is \<open>None\<close> of an option
  type. A Python \<open>str\<close> is a \<open>string\<close>, one \<open>char\<close> for each code point (the model
  covers code points below 256).
\<close>

subsection \<open>Exceptions\<close>

text \<open>
  The exception classes the module raises or lets through. \<open>OSError\<close> carries its
  \<open>errno\<close> attribute (\<open>None\<close> when it was built from a message alone) and its text.
\<close>

datatype error =
    FatalError string
  | NetworkLicensingError string
  | MatlabInstallError string
  | ValueError string
  | OverflowError
  | OSError "int option" string
  | KeyError string




subsection \<open>What the module reads from outside\<close>

datatype platform = Posix | Windows

text \<open>
  Everything the validators read that is not in this file of the repository: the
  operating system (files, the outcome of binding a port, the value of
  \<open>errno.EADDRINUSE\<close>), the package's constants and names
  (\<open>VERSION_INFO_FILE_NAME\<close>, the names of the environment variables, the name of the
  default configuration, \<open>util.is_valid_path\<close>) and the Python built-ins whose tables
  are not written out here (\<open>str.lower\<close>, \<open>int\<close> of a string with \<open>None\<close> for
  \<open>ValueError\<close>, the non-ASCII part of the regular expression class \<open>\w\<close>, \<open>repr\<close> of a
  list of strings).
\<close>

record env =
  os_platform :: platform
  isfile :: "string \<Rightarrow> bool"
  is_valid_path :: "string \<Rightarrow> bool"
  joinpath :: "string \<Rightarrow> string \<Rightarrow> string"
  errno_EADDRINUSE :: int
  sock_bind :: "int \<Rightarrow> (int option \<times> string) option"
  VERSION_INFO_FILE_NAME :: string
  env_name_app_port :: string
  env_name_base_url :: string
  env_name_custom_matlab_root :: string
  default_config_name :: string
  str_lower :: "string \<Rightarrow> string"
  int_of_str :: "string \<Rightarrow> int option"
  isalnum_non_ascii :: "char \<Rightarrow> bool"
  repr_str_list :: "string list \<Rightarrow> string"

subsection \<open>String helpers\<close>

definition startswith :: "string \<Rightarrow> string \<Rightarrow> bool" where
  "startswith s p = (take (length p) s = p)"

definition endswith :: "string \<Rightarrow> string \<Rightarrow> bool" where
  "endswith s p = (length p \<le> length s \<and> drop (length s - length p) s = p)"

subsection \<open>\<open>validate_base_url\<close>\<close>

definition base_url_error_message :: "env \<Rightarrow> string" where
  "base_url_error_message e =
     ''The value of environment variable '' @ env_name_base_url e @
     '' must start with '' @ [CHR 0x22] @ ''/'' @ [CHR 0x22] @ '' ''"

text \<open>\<open>base_url[:-1]\<close> is \<open>butlast\<close>.\<close>

definition validate_base_url :: "env \<Rightarrow> string \<Rightarrow> error + string" where
  "validate_base_url e base_url =
     (if base_url = '''' then Inr ''''
      else if \<not> startswith base_url ''/'' then Inl (FatalError (base_url_error_message e))
      else Inr (if endswith base_url ''/'' then butlast base_url else base_url))"

text \<open>
  The BaseUrl invariant in the specification's words: a non-empty value begins with
  \<open>/\<close> and has no trailing \<open>/\<close>.
\<close>

definition BaseUrl_invariant :: "string \<Rightarrow> bool" where
  "BaseUrl_invariant u = (u = '''' \<or> (startswith u ''/'' \<and> \<not> endswith u ''/''))"

subsection \<open>\<open>validate_mlm_license_file\<close>\<close>

text \<open>
  Modelled from the spec: \<open>system.get_mlm_license_file_seperator\<close> is not in this
  file of the repository. The specification gives the platform separator as \<open>:\<close>
  or \<open>;\<close>, and the validator's own error message says \<open>:\<close> on unix and \<open>;\<close> on
  windows.
\<close>

definition get_mlm_license_file_seperator :: "env \<Rightarrow> char" where
  "get_mlm_license_file_seperator e =
     (case os_platform e of Posix \<Rightarrow> CHR '':'' | Windows \<Rightarrow> CHR '';'')"

text \<open>
  \<open>re.split(f"{seperator}|,", s)\<close>: the pattern matches one character, the separator
  or a comma, so the string is cut at each of them; two cuts in a row, or a cut at
  either end, leave an empty piece.
\<close>

fun re_split :: "(char \<Rightarrow> bool) \<Rightarrow> string \<Rightarrow> string list" where
  "re_split is_sep [] = [[]]"
| "re_split is_sep (c # cs) =
     (if is_sep c then [] # re_split is_sep cs
      else (case re_split is_sep cs of
              [] \<Rightarrow> [[c]]
            | piece # pieces \<Rightarrow> (c # piece) # pieces))"

text \<open>
  The character classes of the pattern \<^verbatim>\<open>(^[0-9]+[@](\w|\_|\-|\.)+$)\<close>. For a \<open>str\<close>
  pattern \<open>\w\<close> is the underscore and what is alphanumeric in Unicode: below code
  point 128 these are the ASCII letters and digits.
\<close>

definition re_digit :: "char \<Rightarrow> bool" where
  "re_digit c = (c \<in> set ''0123456789'')"

definition re_word :: "env \<Rightarrow> char \<Rightarrow> bool" where
  "re_word e c =
     (if (of_char c :: nat) < 128
      then c \<in> set ''abcdefghijklmnopqrstuvwxyzABCDEFGHIJKLMNOPQRSTUVWXYZ0123456789_''
      else isalnum_non_ascii e c)"

definition nlm_host_char :: "env \<Rightarrow> char \<Rightarrow> bool" where
  "nlm_host_char e c = (re_word e c \<or> c = CHR ''_'' \<or> c = CHR ''-'' \<or> c = CHR ''.'')"

text \<open>
  Regular expressions, as far as the pattern uses them: a character class, sequence,
  alternative, one or more repetitions, and the two anchors. \<open>re_match s r i j\<close> says
  that \<open>r\<close> matches the characters of \<open>s\<close> from position \<open>i\<close> up to position \<open>j\<close>.
  Without \<open>re.MULTILINE\<close>, \<open>^\<close> matches only at the start of the string, and \<open>$\<close>
  matches at the end of the string and also just before a newline that is the last
  character. \<open>re.search\<close> finds a match anywhere in the string.
\<close>

datatype regex =
    Class "char \<Rightarrow> bool"
  | Seq regex regex
  | Alt regex regex
  | Plus regex
  | Bol
  | Eol

inductive re_match :: "string \<Rightarrow> regex \<Rightarrow> nat \<Rightarrow> nat \<Rightarrow> bool" for s :: string where
  Class: "i < length s \<Longrightarrow> P (s ! i) \<Longrightarrow> re_match s (Class P) i (Suc i)"
| Seq: "re_match s r1 i j \<Longrightarrow> re_match s r2 j k \<Longrightarrow> re_match s (Seq r1 r2) i k"
| AltL: "re_match s r1 i j \<Longrightarrow> re_match s (Alt r1 r2) i j"
| AltR: "re_match s r2 i j \<Longrightarrow> re_match s (Alt r1 r2) i j"
| PlusOne: "re_match s r i j \<Longrightarrow> re_match s (Plus r) i j"
| PlusMore: "re_match s r i j \<Longrightarrow> re_match s (Plus r) j k \<Longrightarrow> re_match s (Plus r) i k"
| Bol: "re_match s Bol 0 0"
| Eol: "i = length s \<or> (Suc i = length s \<and> s ! i = CHR 0x0A) \<Longrightarrow> re_match s Eol i i"

definition re_search :: "regex \<Rightarrow> string \<Rightarrow> bool" where
  "re_search r s = (\<exists>i j. re_match s r i j)"

text \<open>The pattern \<^verbatim>\<open>(^[0-9]+[@](\w|\_|\-|\.)+$)\<close>; the group does not change what it matches.\<close>

definition nlm_connection_str_regex :: "env \<Rightarrow> regex" where
  "nlm_connection_str_regex e =
     Seq Bol
       (Seq (Plus (Class re_digit))
          (Seq (Class (\<lambda>c. c = CHR ''@''))
             (Seq (Plus (Alt (Class (re_word e))
                          (Alt (Class (\<lambda>c. c = CHR ''_''))
                             (Alt (Class (\<lambda>c. c = CHR ''-''))
                                (Class (\<lambda>c. c = CHR ''.''))))))
                Eol)))"

text \<open>A pattern that matches exactly one character of the class \<open>P\<close>.\<close>

definition one_of :: "string \<Rightarrow> regex \<Rightarrow> (char \<Rightarrow> bool) \<Rightarrow> bool" where
  "one_of s r P = (\<forall>i j. re_match s r i j = (i < length s \<and> P (s ! i) \<and> j = Suc i))"

text \<open>
  \<open>re.search(nlm_connection_str_regex, s)\<close> as a scanner that computes: the longest run
  of digits, \<open>@\<close>, the longest run of host characters, and then the end of the string
  or one last newline. No digit is \<open>@\<close> and no host character is a newline, so the
  longest runs are the only ones that can lead to a match; \<open>re_search_nlm_is_re_search\<close>
  below proves that the scanner accepts exactly the strings the pattern is found in.
\<close>

definition re_search_nlm :: "env \<Rightarrow> string \<Rightarrow> bool" where
  "re_search_nlm e s =
     (let port = takeWhile re_digit s; rest = dropWhile re_digit s in
      port \<noteq> [] \<and>
      (case rest of
         [] \<Rightarrow> False
       | a # rest' \<Rightarrow>
           a = CHR ''@'' \<and>
           (let host = takeWhile (nlm_host_char e) rest';
                tail = dropWhile (nlm_host_char e) rest'
            in host \<noteq> [] \<and> (tail = [] \<or> tail = [CHR 0x0A]))))"

text \<open>
  The grammar in the specification's words: one or more digits, \<open>@\<close>, then one or more
  of word character, \<open>_\<close>, \<open>-\<close>, \<open>.\<close>, and nothing else.
\<close>

definition port_at_hostname :: "env \<Rightarrow> string \<Rightarrow> bool" where
  "port_at_hostname e s =
     (let port = takeWhile re_digit s; rest = dropWhile re_digit s in
      port \<noteq> [] \<and>
      (case rest of
         [] \<Rightarrow> False
       | a # host \<Rightarrow> a = CHR ''@'' \<and> host \<noteq> [] \<and> list_all (nlm_host_char e) host))"

definition mlm_error_message :: "string \<Rightarrow> string" where
  "mlm_error_message nlm_connections_str =
     ''MLM_LICENSE_FILE validation failed for '' @ nlm_connections_str @ ''. '' @
     ''If set, the MLM_LICENSE_FILE environment variable must contain server names (each of the form port@hostname) separated by '' @
     [CHR 0x27] @ '':'' @ [CHR 0x27] @ '' on unix or '' @ [CHR 0x27] @ '';'' @ [CHR 0x27] @
     '' on windows(server triads however must be comma seperated)'' @
     '' OR path to a valid license file.''"

text \<open>The \<open>for\<close> loop over the pieces: the first piece that fails both checks raises.\<close>

fun check_nlm_connection_strs :: "env \<Rightarrow> string \<Rightarrow> string list \<Rightarrow> error + unit" where
  "check_nlm_connection_strs e error_message [] = Inr ()"
| "check_nlm_connection_strs e error_message (nlm_connection_str # strs) =
     (if isfile e nlm_connection_str then check_nlm_connection_strs e error_message strs
      else if re_search_nlm e nlm_connection_str
           then check_nlm_connection_strs e error_message strs
           else Inl (NetworkLicensingError error_message))"

definition nlm_is_sep :: "env \<Rightarrow> char \<Rightarrow> bool" where
  "nlm_is_sep e c = (c = get_mlm_license_file_seperator e \<or> c = CHR '','')"

definition validate_mlm_license_file :: "env \<Rightarrow> string option \<Rightarrow> error + string option" where
  "validate_mlm_license_file e nlm_connections_str =
     (case nlm_connections_str of
        None \<Rightarrow> Inr None
      | Some s \<Rightarrow>
          if s = '''' then Inr None
          else (case check_nlm_connection_strs e (mlm_error_message s)
                       (re_split (nlm_is_sep e) s) of
                  Inl err \<Rightarrow> Inl err
                | Inr u \<Rightarrow> Inr (Some s)))"

subsection \<open>\<open>validate_app_port_is_free\<close>\<close>

text \<open>A port is given as an integer or as a string.\<close>

datatype port_value = PortInt int | PortStr string

fun str_of_nat :: "nat \<Rightarrow> string" where
  "str_of_nat n =
     (if n < 10 then [''0123456789'' ! n]
      else str_of_nat (n div 10) @ [''0123456789'' ! (n mod 10)])"

declare str_of_nat.simps [simp del]

definition str_of_int :: "int \<Rightarrow> string" where
  "str_of_int i = (if i < 0 then CHR ''-'' # str_of_nat (nat (- i)) else str_of_nat (nat i))"

text \<open>\<open>f"{port}"\<close>: a string as it is, an integer in decimal.\<close>

definition format_port :: "port_value \<Rightarrow> string" where
  "format_port port = (case port of PortInt i \<Rightarrow> str_of_int i | PortStr s \<Rightarrow> s)"

definition port_error_message :: "env \<Rightarrow> port_value \<Rightarrow> string" where
  "port_error_message e port =
     ''The port '' @ format_port port @
     '' is not available. Please set another value for the environment variable '' @
     env_name_app_port e"

text \<open>\<open>int(port)\<close>: a string that is no integer raises \<open>ValueError\<close>.\<close>

definition int_of_port :: "env \<Rightarrow> port_value \<Rightarrow> error + int" where
  "int_of_port e port =
     (case port of
        PortInt i \<Rightarrow> Inr i
      | PortStr s \<Rightarrow> (case int_of_str e s of None \<Rightarrow> Inl (ValueError s) | Some i \<Rightarrow> Inr i))"

text \<open>
  \<open>s.bind(("", n))\<close>: a number outside 0..65535 raises \<open>OverflowError\<close> before any system
  call; otherwise the operating system binds or refuses with an \<open>OSError\<close>.
\<close>

definition socket_bind :: "env \<Rightarrow> int \<Rightarrow> error + unit" where
  "socket_bind e n =
     (if n < 0 \<or> 65535 < n then Inl OverflowError
      else (case sock_bind e n of
              None \<Rightarrow> Inr ()
            | Some (errno, strerror) \<Rightarrow> Inl (OSError errno strerror)))"

text \<open>
  The body of the \<open>try\<close>: open a socket, bind it, close it, return the port. The
  outcome of the bind is what the environment says for the port number; opening and
  closing the socket are taken to succeed.
\<close>

definition try_bind_port :: "env \<Rightarrow> port_value \<Rightarrow> error + port_value option" where
  "try_bind_port e port =
     (case int_of_port e port of
        Inl err \<Rightarrow> Inl err
      | Inr n \<Rightarrow> (case socket_bind e n of Inl err \<Rightarrow> Inl err | Inr u \<Rightarrow> Inr (Some port)))"

text \<open>
  \<open>except socket.error as e\<close> catches \<open>OSError\<close> only (\<open>socket.error\<close> is \<open>OSError\<close>);
  every other exception of the body leaves the function as it is.
\<close>

definition validate_app_port_is_free :: "env \<Rightarrow> port_value option \<Rightarrow> error + port_value option" where
  "validate_app_port_is_free e port =
     (case port of
        None \<Rightarrow> Inr None
      | Some p \<Rightarrow>
          (case try_bind_port e p of
             Inr r \<Rightarrow> Inr r
           | Inl (OSError errno strerror) \<Rightarrow>
               if errno = Some (errno_EADDRINUSE e)
               then Inl (FatalError (port_error_message e p))
               else Inl (OSError errno strerror)
           | Inl err \<Rightarrow> Inl err))"

subsection \<open>\<open>validate_env_config\<close>\<close>

text \<open>
  A \<open>dict\<close> with string keys is an association list in insertion order, read with
  \<open>map_of\<close>; \<open>d[k] = v\<close> is \<open>AList.update\<close>, which overwrites in place or appends.
  \<open>__get_configs\<close> runs over the entry points, each a name and the record it loads.
\<close>

type_synonym 'v config = "(string \<times> 'v) list"

definition get_configs :: "env \<Rightarrow> (string \<times> 'v config) list \<Rightarrow> (string \<times> 'v config) list" where
  "get_configs e entry_points =
     foldl (\<lambda>configs (name, loaded). AList.update (str_lower e name) loaded configs)
       [] entry_points"

definition key_missing_message :: "string \<Rightarrow> string \<Rightarrow> string" where
  "key_missing_message key config = key @ '' missing in the provided '' @ config @ '' configuration''"

definition config_not_valid_message :: "env \<Rightarrow> string \<Rightarrow> string list \<Rightarrow> string" where
  "config_not_valid_message e config names =
     config @ '' is not a valid config. Available configs are : '' @ repr_str_list e names"

text \<open>The loop over the keys of the default configuration.\<close>

fun check_config_keys :: "string \<Rightarrow> string list \<Rightarrow> 'v config \<Rightarrow> error + unit" where
  "check_config_keys config [] env_config = Inr ()"
| "check_config_keys config (key # keys) env_config =
     (if map_of env_config key = None
      then Inl (FatalError (key_missing_message key config))
      else check_config_keys config keys env_config)"

text \<open>
  \<open>available_configs[matlab_proxy.get_default_config_name()]\<close> raises \<open>KeyError\<close> when the
  registry has no default configuration.
\<close>

definition validate_env_config :: "env \<Rightarrow> (string \<times> 'v config) list \<Rightarrow> string \<Rightarrow> error + 'v config" where
  "validate_env_config e entry_points config_name =
     (let available_configs = get_configs e entry_points;
          config = str_lower e config_name
      in case map_of available_configs config of
           Some env_config \<Rightarrow>
             (case map_of available_configs (default_config_name e) of
                None \<Rightarrow> Inl (KeyError (default_config_name e))
              | Some default_config \<Rightarrow>
                  (case check_config_keys config (map fst default_config) env_config of
                     Inl err \<Rightarrow> Inl err
                   | Inr u \<Rightarrow> Inr env_config))
         | None \<Rightarrow>
             Inl (FatalError (config_not_valid_message e config (map fst available_configs))))"

subsection \<open>\<open>validate_ssl_cert_file\<close> and \<open>validate_ssl_key_and_cert_file\<close>\<close>

text \<open>
  \<open>if a_ssl_cert_file:\<close> and \<open>if a_ssl_key_file:\<close> hold for a string that is not empty:
  \<open>None\<close> and the empty string both skip the file check. \<open>is None\<close> holds for \<open>None\<close>
  only.
\<close>

definition cert_not_valid_message :: "string \<Rightarrow> string" where
  "cert_not_valid_message f = ''MWI_SSL_CERT_FILE is not a valid file: '' @ f"

definition key_not_valid_message :: "string \<Rightarrow> string" where
  "key_not_valid_message f = ''MWI_SSL_KEY_FILE is not a valid file: '' @ f"

definition cert_required_message :: string where
  "cert_required_message = ''MWI_SSL_CERT_FILE must be provided to use the MWI_SSL_KEY_FILE''"

definition validate_ssl_cert_file :: "env \<Rightarrow> string option \<Rightarrow> error + string option" where
  "validate_ssl_cert_file e a_ssl_cert_file =
     (case a_ssl_cert_file of
        None \<Rightarrow> Inr a_ssl_cert_file
      | Some f \<Rightarrow>
          if f \<noteq> '''' \<and> \<not> isfile e f then Inl (FatalError (cert_not_valid_message f))
          else Inr a_ssl_cert_file)"

definition validate_ssl_key_and_cert_file ::
  "env \<Rightarrow> string option \<Rightarrow> string option \<Rightarrow> error + (string option \<times> string option)" where
  "validate_ssl_key_and_cert_file e a_ssl_key_file a_ssl_cert_file =
     (if a_ssl_cert_file = None \<and> a_ssl_key_file = None
      then Inr (a_ssl_key_file, a_ssl_cert_file)
      else (case validate_ssl_cert_file e a_ssl_cert_file of
              Inl err \<Rightarrow> Inl err
            | Inr cert_file \<Rightarrow>
                if cert_file = None \<and> a_ssl_key_file \<noteq> None
                then Inl (FatalError cert_required_message)
                else (case a_ssl_key_file of
                        None \<Rightarrow> Inr (a_ssl_key_file, a_ssl_cert_file)
                      | Some k \<Rightarrow>
                          if k \<noteq> '''' \<and> \<not> isfile e k
                          then Inl (FatalError (key_not_valid_message k))
                          else Inr (a_ssl_key_file, a_ssl_cert_file))))"

subsection \<open>\<open>terminate_on_invalid_matlab_root_path\<close>\<close>

text \<open>
  This function logs one text and raises another, so its model returns the log lines
  it wrote next to its result. The other validators' log calls change neither the
  value returned nor the exception raised and are left out of their models.
\<close>

datatype log_level = DEBUG | INFO | ERROR

type_synonym log_line = "log_level \<times> string"

fun validate_if_paths_exist :: "env \<Rightarrow> string list \<Rightarrow> error + string list" where
  "validate_if_paths_exist e [] = Inr []"
| "validate_if_paths_exist e (path # paths) =
     (if \<not> is_valid_path e path then Inl (OSError None (''Supplied invalid path:'' @ path))
      else (case validate_if_paths_exist e paths of
              Inl err \<Rightarrow> Inl err
            | Inr checked \<Rightarrow> Inr (path # checked)))"

definition matlab_root_error_string :: "env \<Rightarrow> string \<Rightarrow> bool \<Rightarrow> string" where
  "matlab_root_error_string e matlab_root is_custom_matlab_root =
     ''Unable to find MATLAB at: '' @ matlab_root @
     (if is_custom_matlab_root
      then [CHR 0x0A] @ ''Edit the environment variable '' @ env_name_custom_matlab_root e @
           '' to the correct path, and restart matlab-proxy.''
      else [CHR 0x0A] @ ''Update your system PATH, and restart matlab-proxy.'')"

definition failed_to_locate_text :: "env \<Rightarrow> string" where
  "failed_to_locate_text e =
     ''Failed to locate '' @ VERSION_INFO_FILE_NAME e @ '' at this location.''"

definition root_exists_log :: "string \<Rightarrow> log_line" where
  "root_exists_log matlab_root =
     (DEBUG, ''Specified MATLAB root path:'' @ matlab_root @
             '' exists, continuing to verify its validity...'')"

definition terminate_on_invalid_matlab_root_path ::
  "env \<Rightarrow> string \<Rightarrow> bool \<Rightarrow> log_line list \<times> (error + string)" where
  "terminate_on_invalid_matlab_root_path e matlab_root is_custom_matlab_root =
     (let error_string = matlab_root_error_string e matlab_root is_custom_matlab_root in
      case validate_if_paths_exist e [matlab_root] of
        Inl (OSError errno text) \<Rightarrow> ([(ERROR, text)], Inl (MatlabInstallError error_string))
      | Inl err \<Rightarrow> ([], Inl err)
      | Inr checked \<Rightarrow>
          if \<not> isfile e (joinpath e matlab_root (VERSION_INFO_FILE_NAME e))
          then ([root_exists_log matlab_root,
                 (ERROR, error_string @ failed_to_locate_text e)],
                Inl (MatlabInstallError error_string))
          else ([root_exists_log matlab_root], Inr matlab_root))"

subsection \<open>A concrete environment\<close>

text \<open>
  The built-ins of the concrete environment, on ASCII: \<open>str.lower\<close> maps \<open>A\<close>..\<open>Z\<close> to
  \<open>a\<close>..\<open>z\<close>; \<open>int\<close> reads a plain run of decimal digits and refuses every other string
  (Python also reads a sign, blanks around the number and underscores between
  digits; the examples use none of them); \<open>repr\<close> of a list of strings without
  quotes or escapes in them.
\<close>

definition ascii_lower :: "string \<Rightarrow> string" where
  "ascii_lower =
     map (\<lambda>c. case map_of (zip ''ABCDEFGHIJKLMNOPQRSTUVWXYZ'' ''abcdefghijklmnopqrstuvwxyz'') c of
                None \<Rightarrow> c
              | Some l \<Rightarrow> l)"

definition decimal_of_str :: "string \<Rightarrow> int option" where
  "decimal_of_str s =
     (if s \<noteq> [] \<and> list_all re_digit s
      then Some (foldl (\<lambda>a c. 10 * a + (int (of_char c) - 48)) 0 s)
      else None)"

fun join_comma :: "string list \<Rightarrow> string" where
  "join_comma [] = []"
| "join_comma [s] = s"
| "join_comma (s # t # ss) = s @ '', '' @ join_comma (t # ss)"

definition repr_plain :: "string list \<Rightarrow> string" where
  "repr_plain names = ''['' @ join_comma (map (\<lambda>s. [CHR 0x27] @ s @ [CHR 0x27]) names) @ '']''"

text \<open>
  A POSIX machine with three files, one MATLAB root that has its version file and
  one directory that has none, port 8080 taken and port 80 refused for lack of
  permission; used to evaluate the validators.
\<close>

definition env0 :: env where
  "env0 = \<lparr>
     os_platform = Posix,
     isfile = (\<lambda>p. p \<in> set [''/certs/cert.pem'', ''/certs/key.pem'', ''/opt/matlab/VersionInfo.xml'']),
     is_valid_path = (\<lambda>p. p \<in> set [''/opt/matlab'', ''/opt/empty'']),
     joinpath = (\<lambda>d f. d @ ''/'' @ f),
     errno_EADDRINUSE = 98,
     sock_bind = (\<lambda>n. if n = 8080 then Some (Some 98, ''Address already in use'')
                       else if n = 80 then Some (Some 13, ''Permission denied'')
                       else None),
     VERSION_INFO_FILE_NAME = ''VersionInfo.xml'',
     env_name_app_port = ''MWI_APP_PORT'',
     env_name_base_url = ''MWI_BASE_URL'',
     env_name_custom_matlab_root = ''MWI_CUSTOM_MATLAB_ROOT'',
     default_config_name = ''default'',
     str_lower = ascii_lower,
     int_of_str = decimal_of_str,
     isalnum_non_ascii = (\<lambda>c. False),
     repr_str_list = repr_plain
   \<rparr>"

text \<open>The entry points of the examples: a default profile and one that lacks a key.\<close>

definition entry_points0 :: "(string \<times> nat config) list" where
  "entry_points0 =
     [(''Default'', [(''extension_name'', 1), (''header_info'', 2)]),
      (''Cloud'', [(''extension_name'', 3)]),
      (''Local'', [(''header_info'', 4), (''extension_name'', 5), (''extra'', 6)])]"

section \<open>Properties\<close>

subsection \<open>The concrete environment, field by field\<close>

lemma env0_fields:
  "os_platform env0 = Posix"
  "isfile env0 p = (p \<in> set [''/certs/cert.pem'', ''/certs/key.pem'', ''/opt/matlab/VersionInfo.xml''])"
  "is_valid_path env0 p = (p \<in> set [''/opt/matlab'', ''/opt/empty''])"
  "joinpath env0 d f = d @ ''/'' @ f"
  "errno_EADDRINUSE env0 = 98"
  "sock_bind env0 n = (if n = 8080 then Some (Some 98, ''Address already in use'')
                       else if n = 80 then Some (Some 13, ''Permission denied'')
                       else None)"
  "VERSION_INFO_FILE_NAME env0 = ''VersionInfo.xml''"
  "env_name_app_port env0 = ''MWI_APP_PORT''"
  "env_name_base_url env0 = ''MWI_BASE_URL''"
  "env_name_custom_matlab_root env0 = ''MWI_CUSTOM_MATLAB_ROOT''"
  "default_config_name env0 = ''default''"
  "str_lower env0 = ascii_lower"
  "int_of_str env0 = decimal_of_str"
  "isalnum_non_ascii env0 c = False"
  "repr_str_list env0 = repr_plain"
  by (simp_all add: env0_def)

subsection \<open>The base URL\<close>

lemma startswith_slash: "startswith s ''/'' = (\<exists>t. s = CHR ''/'' # t)"
  by (cases s) (auto simp: startswith_def)

lemma endswith_iff: "endswith s p = (\<exists>t. s = t @ p)"
proof
  assume "endswith s p"
  then have "s = take (length s - length p) s @ p"
    by (metis append_take_drop_id endswith_def)
  then show "\<exists>t. s = t @ p" ..
next
  assume "\<exists>t. s = t @ p"
  then show "endswith s p" by (auto simp: endswith_def)
qed

lemma endswith_snoc: "endswith (t @ [c]) ''/'' = (c = CHR ''/'')"
  by (auto simp: endswith_iff)

text \<open>
  The three ways \<open>validate_base_url\<close> returns: the empty string as it is, a string
  with its one last slash cut off, a string without a last slash as it is.
\<close>

lemma validate_base_url_cases:
  "validate_base_url e x = Inr y \<longleftrightarrow>
     (x = [] \<and> y = []) \<or>
     (startswith x ''/'' \<and> x = y @ ''/'') \<or>
     (startswith x ''/'' \<and> \<not> endswith x ''/'' \<and> y = x)"
proof (cases x rule: rev_cases)
  case Nil
  then show ?thesis by (auto simp: validate_base_url_def startswith_def)
next
  case (snoc t c)
  then show ?thesis by (auto simp: validate_base_url_def endswith_snoc)
qed

text \<open>
  Claim C3 as stated, that \<open>validate_base_url\<close> is idempotent on every input it
  accepts, fails: of \<open>//\<close> one slash is cut and \<open>/\<close> is returned, and of \<open>/\<close> the slash
  is cut and the empty string is returned.
\<close>

theorem validate_base_url_not_idempotent:
  "validate_base_url env0 ''//'' = Inr ''/'' \<and> validate_base_url env0 ''/'' \<noteq> Inr ''/''"
  by (simp add: validate_base_url_def startswith_def endswith_def)

text \<open>
  Claim C3, amended: for every input \<open>x\<close> on which \<open>validate_base_url\<close> succeeds with
  \<open>y\<close>, running it on \<open>y\<close> succeeds with \<open>y\<close> again exactly when \<open>x\<close> does not end with
  two slashes.
\<close>

theorem validate_base_url_idempotent_iff:
  assumes "validate_base_url e x = Inr y"
  shows "(validate_base_url e y = Inr y) = (\<not> endswith x ''//'')"
proof -
  from assms consider
      (empty) "x = []" "y = []"
    | (strip) "startswith x ''/''" "x = y @ ''/''"
    | (keep) "startswith x ''/''" "\<not> endswith x ''/''" "y = x"
    unfolding validate_base_url_cases by blast
  then show ?thesis
  proof cases
    case empty
    then show ?thesis by (simp add: validate_base_url_def endswith_def)
  next
    case strip
    show ?thesis
    proof (cases "y = []")
      case True
      with strip show ?thesis by (simp add: validate_base_url_def endswith_def)
    next
      case False
      with strip have sy: "startswith y ''/''"
        by (cases y) (auto simp: startswith_def)
      have "endswith x ''//'' = endswith y ''/''"
        using strip(2) by (auto simp: endswith_iff)
      moreover have "(validate_base_url e y = Inr y) = (\<not> endswith y ''/'')"
        using False sy by (auto simp: validate_base_url_def endswith_iff)
      ultimately show ?thesis by simp
    qed
  next
    case keep
    have "\<not> endswith x ''//''"
      using keep(2) by (auto simp: endswith_iff)
    moreover have "validate_base_url e y = Inr y"
      using keep by (auto simp: validate_base_url_def)
    ultimately show ?thesis by simp
  qed
qed

theorem validate_base_url_idempotent_iff_witness:
  "validate_base_url env0 ''/matlab/'' = Inr ''/matlab'' \<and>
   \<not> endswith ''/matlab/'' ''//'' \<and>
   validate_base_url env0 ''/matlab'' = Inr ''/matlab''"
proof -
  have h: "validate_base_url env0 ''/matlab/'' = Inr ''/matlab''"
    by (simp add: validate_base_url_def startswith_def endswith_def)
  have n: "\<not> endswith ''/matlab/'' ''//''"
    by (simp add: endswith_def)
  from validate_base_url_idempotent_iff [OF h] n
  have "validate_base_url env0 ''/matlab'' = Inr ''/matlab''" by simp
  with h n show ?thesis by simp
qed

text \<open>
  Claim C4 as stated, that every returned value satisfies the BaseUrl invariant,
  fails: \<open>//\<close> is accepted and \<open>/\<close> is returned, which is not empty and ends with a
  slash.
\<close>

theorem validate_base_url_breaks_invariant:
  "validate_base_url env0 ''//'' = Inr ''/'' \<and> \<not> BaseUrl_invariant ''/''"
  by (simp add: validate_base_url_def startswith_def endswith_def BaseUrl_invariant_def)

text \<open>
  Claim C4, amended: for every input \<open>x\<close> on which \<open>validate_base_url\<close> succeeds with
  \<open>y\<close>: if \<open>y\<close> is not empty it begins with a slash; \<open>y\<close> satisfies the BaseUrl invariant
  when \<open>x\<close> does not end with two slashes, and ends with a slash when \<open>x\<close> does; and \<open>y\<close>
  is empty exactly for the inputs \<open>''\<close> and \<open>/\<close>.
\<close>

theorem validate_base_url_result:
  assumes "validate_base_url e x = Inr y"
  shows "(y \<noteq> [] \<longrightarrow> startswith y ''/'') \<and>
         (\<not> endswith x ''//'' \<longrightarrow> BaseUrl_invariant y) \<and>
         (endswith x ''//'' \<longrightarrow> endswith y ''/'') \<and>
         (y = [] \<longleftrightarrow> x = [] \<or> x = ''/'')"
proof -
  from assms consider
      (empty) "x = []" "y = []"
    | (strip) "startswith x ''/''" "x = y @ ''/''"
    | (keep) "startswith x ''/''" "\<not> endswith x ''/''" "y = x"
    unfolding validate_base_url_cases by blast
  then show ?thesis
  proof cases
    case empty
    then show ?thesis by (simp add: endswith_def BaseUrl_invariant_def)
  next
    case strip
    have "y \<noteq> [] \<longrightarrow> startswith y ''/''"
      using strip by (cases y) (auto simp: startswith_def)
    moreover have "endswith x ''//'' = endswith y ''/''"
      using strip(2) by (auto simp: endswith_iff)
    moreover have "(y = []) = (x = [] \<or> x = ''/'')"
      using strip(2) by auto
    ultimately show ?thesis by (auto simp: BaseUrl_invariant_def)
  next
    case keep
    have "x \<noteq> []" "x \<noteq> ''/''" "\<not> endswith x ''//''"
      using keep(1,2) by (auto simp: startswith_def endswith_iff)
    with keep show ?thesis by (simp add: BaseUrl_invariant_def)
  qed
qed

theorem validate_base_url_result_witness:
  "validate_base_url env0 ''/matlab/'' = Inr ''/matlab'' \<and>
   startswith ''/matlab'' ''/'' \<and> BaseUrl_invariant ''/matlab'' \<and>
   validate_base_url env0 ''/'' = Inr '''' \<and>
   validate_base_url env0 ''/a//'' = Inr ''/a/'' \<and> endswith ''/a/'' ''/''"
proof -
  have h1: "validate_base_url env0 ''/matlab/'' = Inr ''/matlab''"
    and h2: "validate_base_url env0 ''/'' = Inr ''''"
    and h3: "validate_base_url env0 ''/a//'' = Inr ''/a/''"
    by (simp_all add: validate_base_url_def startswith_def endswith_def)
  have n: "\<not> endswith ''/matlab/'' ''//''" "endswith ''/a//'' ''//''"
    by (simp_all add: endswith_def)
  from validate_base_url_result [OF h1] validate_base_url_result [OF h3] n h1 h2 h3
  show ?thesis by simp
qed

subsection \<open>The license connection string\<close>

text \<open>The loop over the pieces returns when every piece passes one of the two checks.\<close>

lemma check_nlm_Inr:
  "(check_nlm_connection_strs e m ts = Inr u) =
     (\<forall>t \<in> set ts. isfile e t \<or> re_search_nlm e t)"
  by (induction ts) auto

lemma check_nlm_Inl:
  "(check_nlm_connection_strs e m ts = Inl err) =
     (err = NetworkLicensingError m \<and> (\<exists>t \<in> set ts. \<not> isfile e t \<and> \<not> re_search_nlm e t))"
  by (induction ts) auto

lemma re_split_no_sep: "\<forall>c \<in> set s. \<not> p c \<Longrightarrow> re_split p s = [s]"
  by (induction s) auto

lemma re_digit_not_sep: "re_digit c \<Longrightarrow> \<not> nlm_is_sep e c"
  by (auto simp: re_digit_def nlm_is_sep_def get_mlm_license_file_seperator_def
      split: platform.splits)

lemma host_char_not_sep: "nlm_host_char e c \<Longrightarrow> \<not> nlm_is_sep e c"
  by (auto simp: nlm_host_char_def re_word_def nlm_is_sep_def get_mlm_license_file_seperator_def
      split: platform.splits if_splits)

lemma host_char_not_newline: "\<not> nlm_host_char e (CHR 0x0A)"
  by (simp add: nlm_host_char_def re_word_def)

lemma re_digit_not_at: "\<not> re_digit (CHR ''@'')"
  by (simp add: re_digit_def)

lemma span_run:
  "list_all P xs \<Longrightarrow> \<not> P y \<Longrightarrow>
     takeWhile P (xs @ y # ys) = xs \<and> dropWhile P (xs @ y # ys) = y # ys"
  by (induction xs) auto

lemma span_all:
  "list_all P xs \<Longrightarrow> takeWhile P xs = xs \<and> dropWhile P xs = []"
  by (induction xs) auto

lemma list_all_takeWhile: "list_all P (takeWhile P xs)"
  by (induction xs) auto

text \<open>The strings of the grammar: a run of digits, \<open>@\<close>, a run of host characters.\<close>

lemma port_at_hostname_iff:
  "port_at_hostname e s =
     (\<exists>ds hs. ds \<noteq> [] \<and> hs \<noteq> [] \<and> list_all re_digit ds \<and> list_all (nlm_host_char e) hs \<and>
        s = ds @ CHR ''@'' # hs)"
proof
  assume p: "port_at_hostname e s"
  define ds where "ds = takeWhile re_digit s"
  from p obtain hs where r: "dropWhile re_digit s = CHR ''@'' # hs"
    and h: "hs \<noteq> []" "list_all (nlm_host_char e) hs" and d: "ds \<noteq> []"
    by (auto simp: port_at_hostname_def Let_def ds_def split: list.splits)
  have "s = ds @ CHR ''@'' # hs"
    using takeWhile_dropWhile_id [of re_digit s] r by (simp add: ds_def)
  moreover have "list_all re_digit ds"
    by (simp add: ds_def list_all_takeWhile)
  ultimately show "\<exists>ds hs. ds \<noteq> [] \<and> hs \<noteq> [] \<and> list_all re_digit ds \<and>
      list_all (nlm_host_char e) hs \<and> s = ds @ CHR ''@'' # hs"
    using h d by blast
next
  assume "\<exists>ds hs. ds \<noteq> [] \<and> hs \<noteq> [] \<and> list_all re_digit ds \<and>
      list_all (nlm_host_char e) hs \<and> s = ds @ CHR ''@'' # hs"
  then obtain ds hs where a: "ds \<noteq> []" "hs \<noteq> []" "list_all re_digit ds"
      "list_all (nlm_host_char e) hs" and s: "s = ds @ CHR ''@'' # hs"
    by blast
  have "takeWhile re_digit s = ds \<and> dropWhile re_digit s = CHR ''@'' # hs"
    unfolding s using span_run [OF a(3) re_digit_not_at] by simp
  then show "port_at_hostname e s"
    using a by (simp add: port_at_hostname_def)
qed

text \<open>
  The strings \<open>re.search\<close> accepts: those of the grammar, and those of the grammar with
  one newline after them.
\<close>

lemma re_search_nlm_split:
  "re_search_nlm e s =
     (\<exists>ds hs tl. ds \<noteq> [] \<and> hs \<noteq> [] \<and> list_all re_digit ds \<and> list_all (nlm_host_char e) hs \<and>
        (tl = [] \<or> tl = [CHR 0x0A]) \<and> s = ds @ CHR ''@'' # hs @ tl)"
proof
  assume p: "re_search_nlm e s"
  define ds where "ds = takeWhile re_digit s"
  from p obtain r where r: "dropWhile re_digit s = CHR ''@'' # r" and d: "ds \<noteq> []"
    and h: "takeWhile (nlm_host_char e) r \<noteq> []"
    and t: "dropWhile (nlm_host_char e) r = [] \<or> dropWhile (nlm_host_char e) r = [CHR 0x0A]"
    by (auto simp: re_search_nlm_def Let_def ds_def split: list.splits)
  have "s = ds @ CHR ''@'' # r"
    using takeWhile_dropWhile_id [of re_digit s] r by (simp add: ds_def)
  then have "s = ds @ CHR ''@'' # takeWhile (nlm_host_char e) r @ dropWhile (nlm_host_char e) r"
    by simp
  moreover have "list_all re_digit ds" "list_all (nlm_host_char e) (takeWhile (nlm_host_char e) r)"
    by (simp_all add: ds_def list_all_takeWhile)
  ultimately show "\<exists>ds hs tl. ds \<noteq> [] \<and> hs \<noteq> [] \<and> list_all re_digit ds \<and>
      list_all (nlm_host_char e) hs \<and> (tl = [] \<or> tl = [CHR 0x0A]) \<and> s = ds @ CHR ''@'' # hs @ tl"
    using d h t by blast
next
  assume "\<exists>ds hs tl. ds \<noteq> [] \<and> hs \<noteq> [] \<and> list_all re_digit ds \<and>
      list_all (nlm_host_char e) hs \<and> (tl = [] \<or> tl = [CHR 0x0A]) \<and> s = ds @ CHR ''@'' # hs @ tl"
  then obtain ds hs tl where a: "ds \<noteq> []" "hs \<noteq> []" "list_all re_digit ds"
      "list_all (nlm_host_char e) hs" "tl = [] \<or> tl = [CHR 0x0A]"
      and s: "s = ds @ CHR ''@'' # hs @ tl"
    by blast
  have 1: "takeWhile re_digit s = ds \<and> dropWhile re_digit s = CHR ''@'' # hs @ tl"
    unfolding s using span_run [OF a(3) re_digit_not_at] by simp
  have 2: "takeWhile (nlm_host_char e) (hs @ tl) = hs \<and> dropWhile (nlm_host_char e) (hs @ tl) = tl"
    using a(5) span_all [OF a(4)] span_run [OF a(4) host_char_not_newline, of "[]"] by auto
  show "re_search_nlm e s"
    using a(1,2,5) 1 2 by (auto simp: re_search_nlm_def)
qed

text \<open>The scanner against the pattern.\<close>

inductive_simps re_match_Class: "re_match s (Class P) i j"
inductive_simps re_match_Seq: "re_match s (Seq r1 r2) i j"
inductive_simps re_match_Alt: "re_match s (Alt r1 r2) i j"
inductive_simps re_match_Bol: "re_match s Bol i j"
inductive_simps re_match_Eol: "re_match s Eol i j"

lemma one_of_Class: "one_of s (Class P) P"
  by (auto simp: one_of_def re_match_Class)

lemma one_of_Alt: "one_of s r1 P \<Longrightarrow> one_of s r2 Q \<Longrightarrow> one_of s (Alt r1 r2) (\<lambda>c. P c \<or> Q c)"
  by (auto simp: one_of_def re_match_Alt)

lemma Plus_run_sound:
  assumes "re_match s r' i j" "r' = Plus r" "one_of s r P"
  shows "i < j \<and> j \<le> length s \<and> (\<forall>k. i \<le> k \<and> k < j \<longrightarrow> P (s ! k))"
  using assms
proof (induction rule: re_match.induct)
  case (PlusOne r0 i j)
  from PlusOne.prems have "one_of s r0 P" by simp
  with PlusOne.hyps(1) have "i < length s \<and> P (s ! i) \<and> j = Suc i"
    unfolding one_of_def by blast
  then show ?case by (auto simp: le_less_Suc_eq)
next
  case (PlusMore r0 i j k)
  from PlusMore.prems have "one_of s r0 P" by simp
  with PlusMore.hyps(1) have first: "i < length s \<and> P (s ! i) \<and> j = Suc i"
    unfolding one_of_def by blast
  have rest: "j < k \<and> k \<le> length s \<and> (\<forall>n. j \<le> n \<and> n < k \<longrightarrow> P (s ! n))"
    by (rule PlusMore.IH(2) [OF PlusMore.prems])
  show ?case
  proof (intro conjI allI impI)
    show "i < k" using first rest by simp
    show "k \<le> length s" using rest by simp
    fix n assume "i \<le> n \<and> n < k"
    then have "n = i \<or> (j \<le> n \<and> n < k)" using first by auto
    then show "P (s ! n)" using first rest by blast
  qed
qed simp_all

lemma Plus_run_complete:
  assumes "one_of s r P"
  shows "i < j \<Longrightarrow> j \<le> length s \<Longrightarrow> (\<forall>k. i \<le> k \<and> k < j \<longrightarrow> P (s ! k)) \<Longrightarrow>
         re_match s (Plus r) i j"
proof (induction "j - i" arbitrary: i)
  case 0
  then show ?case by simp
next
  case (Suc n)
  have step: "re_match s r i (Suc i)"
    using assms Suc.prems by (auto simp: one_of_def)
  show ?case
  proof (cases "Suc i = j")
    case True
    with step show ?thesis by (auto intro: re_match.PlusOne)
  next
    case False
    with Suc.prems Suc.hyps(2) have "re_match s (Plus r) (Suc i) j"
      by (intro Suc.hyps(1)) auto
    with step show ?thesis by (rule re_match.PlusMore)
  qed
qed

lemma Plus_run:
  "one_of s r P \<Longrightarrow>
   re_match s (Plus r) i j = (i < j \<and> j \<le> length s \<and> (\<forall>k. i \<le> k \<and> k < j \<longrightarrow> P (s ! k)))"
  using Plus_run_sound [of s "Plus r" i j r P] Plus_run_complete [of s r P i j] by blast

lemma one_of_host: "one_of s
    (Alt (Class (re_word e))
       (Alt (Class (\<lambda>c. c = CHR ''_''))
          (Alt (Class (\<lambda>c. c = CHR ''-'')) (Class (\<lambda>c. c = CHR ''.'')))))
    (nlm_host_char e)"
proof -
  have "nlm_host_char e = (\<lambda>c. re_word e c \<or> (c = CHR ''_'' \<or> (c = CHR ''-'' \<or> c = CHR ''.'')))"
    by (simp add: fun_eq_iff nlm_host_char_def)
  then show ?thesis
    by (simp only: one_of_Alt one_of_Class)
qed

text \<open>The matches of the whole pattern, by the positions where its parts end.\<close>

lemma re_match_nlm_regex:
  "re_match s (nlm_connection_str_regex e) i k =
     (i = 0 \<and>
      (\<exists>j. 0 < j \<and> j < length s \<and> (\<forall>n. n < j \<longrightarrow> re_digit (s ! n)) \<and> s ! j = CHR ''@'' \<and>
        Suc j < k \<and> k \<le> length s \<and> (\<forall>n. Suc j \<le> n \<and> n < k \<longrightarrow> nlm_host_char e (s ! n)) \<and>
        (k = length s \<or> (Suc k = length s \<and> s ! k = CHR 0x0A))))"
  (is "?L = ?R")
proof
  assume ?L
  then obtain a b c d where
    1: "re_match s Bol i a"
    and 2: "re_match s (Plus (Class re_digit)) a b"
    and 3: "re_match s (Class (\<lambda>c. c = CHR ''@'')) b c"
    and 4: "re_match s (Plus (Alt (Class (re_word e))
       (Alt (Class (\<lambda>c. c = CHR ''_''))
          (Alt (Class (\<lambda>c. c = CHR ''-'')) (Class (\<lambda>c. c = CHR ''.'')))))) c d"
    and 5: "re_match s Eol d k"
    unfolding nlm_connection_str_regex_def re_match_Seq by blast
  from 1 have ia: "i = 0" "a = 0" by (simp_all add: re_match_Bol)
  from 2 ia have d: "0 < b" "b \<le> length s" "\<forall>n. n < b \<longrightarrow> re_digit (s ! n)"
    by (simp_all add: Plus_run [OF one_of_Class])
  from 3 have at: "b < length s" "s ! b = CHR ''@''" "c = Suc b"
    by (simp_all add: re_match_Class)
  from 4 at have h: "Suc b < d" "d \<le> length s"
      "\<forall>n. Suc b \<le> n \<and> n < d \<longrightarrow> nlm_host_char e (s ! n)"
    by (simp_all add: Plus_run [OF one_of_host])
  from 5 have e: "k = d" "d = length s \<or> (Suc d = length s \<and> s ! d = CHR 0x0A)"
    by (simp_all add: re_match_Eol)
  from ia d at h e show ?R by blast
next
  assume r: ?R
  then obtain j where i: "i = 0"
    and d: "0 < j" "j < length s" "\<forall>n. n < j \<longrightarrow> re_digit (s ! n)"
    and at: "s ! j = CHR ''@''"
    and h: "Suc j < k" "k \<le> length s" "\<forall>n. Suc j \<le> n \<and> n < k \<longrightarrow> nlm_host_char e (s ! n)"
    and e: "k = length s \<or> (Suc k = length s \<and> s ! k = CHR 0x0A)"
    by blast
  have 1: "re_match s Bol i 0" using i by (simp add: re_match_Bol)
  have 2: "re_match s (Plus (Class re_digit)) 0 j"
    using d by (simp add: Plus_run [OF one_of_Class])
  have 3: "re_match s (Class (\<lambda>c. c = CHR ''@'')) j (Suc j)"
    using d(2) at by (simp add: re_match_Class)
  have 4: "re_match s (Plus (Alt (Class (re_word e))
       (Alt (Class (\<lambda>c. c = CHR ''_''))
          (Alt (Class (\<lambda>c. c = CHR ''-'')) (Class (\<lambda>c. c = CHR ''.'')))))) (Suc j) k"
    using h by (simp add: Plus_run [OF one_of_host])
  have 5: "re_match s Eol k k" using e by (simp add: re_match_Eol)
  from 1 2 3 4 5 show ?L
    unfolding nlm_connection_str_regex_def
    by (blast intro: re_match.Seq)
qed

lemma positions_of_split:
  assumes "ds \<noteq> []" "hs \<noteq> []" "list_all re_digit ds" "list_all (nlm_host_char e) hs"
    and "nl = [] \<or> nl = [CHR 0x0A]" and s: "s = ds @ CHR ''@'' # hs @ nl"
  shows "re_match s (nlm_connection_str_regex e) 0 (Suc (length ds + length hs))"
proof -
  let ?j = "length ds" and ?k = "Suc (length ds + length hs)"
  have d: "\<forall>n. n < ?j \<longrightarrow> re_digit (s ! n)"
    using assms(3) by (simp add: s nth_append list_all_length)
  have at: "s ! ?j = CHR ''@''" by (simp add: s)
  have h: "\<forall>n. Suc ?j \<le> n \<and> n < ?k \<longrightarrow> nlm_host_char e (s ! n)"
  proof (intro allI impI)
    fix n assume n: "Suc ?j \<le> n \<and> n < ?k"
    then obtain m where m: "n = Suc ?j + m" "m < length hs"
      by (metis add_Suc add_less_cancel_left le_Suc_ex)
    have "s ! n = (CHR ''@'' # hs @ nl) ! (Suc m)"
      unfolding s m(1) by (simp add: nth_append)
    also have "\<dots> = hs ! m" using m(2) by (simp add: nth_append)
    finally show "nlm_host_char e (s ! n)"
      using assms(4) m(2) by (simp add: list_all_length)
  qed
  have e: "?k = length s \<or> (Suc ?k = length s \<and> s ! ?k = CHR 0x0A)"
    using assms(5) by (auto simp: s nth_append)
  have "0 < ?j" "?j < length s" "Suc ?j < ?k" "?k \<le> length s"
    using assms(1,2) by (simp_all add: s)
  with d at h e show ?thesis
    unfolding re_match_nlm_regex by blast
qed

lemma split_of_positions:
  assumes "0 < j" "j < length s" "\<forall>n. n < j \<longrightarrow> re_digit (s ! n)" "s ! j = CHR ''@''"
    and "Suc j < k" "k \<le> length s" "\<forall>n. Suc j \<le> n \<and> n < k \<longrightarrow> nlm_host_char e (s ! n)"
    and "k = length s \<or> (Suc k = length s \<and> s ! k = CHR 0x0A)"
  shows "\<exists>ds hs nl. ds \<noteq> [] \<and> hs \<noteq> [] \<and> list_all re_digit ds \<and>
      list_all (nlm_host_char e) hs \<and> (nl = [] \<or> nl = [CHR 0x0A]) \<and> s = ds @ CHR ''@'' # hs @ nl"
proof -
  define ds where "ds = take j s"
  define hs where "hs = take (k - Suc j) (drop (Suc j) s)"
  define nl where "nl = drop k s"
  have "s = take j s @ drop j s" by simp
  also have "drop j s = s ! j # drop (Suc j) s"
    using assms(2) by (simp add: Cons_nth_drop_Suc)
  also have "drop (Suc j) s = hs @ drop (k - Suc j) (drop (Suc j) s)"
    by (simp only: hs_def append_take_drop_id)
  also have "drop (k - Suc j) (drop (Suc j) s) = nl"
    using assms(5) by (simp add: nl_def)
  finally have s: "s = ds @ CHR ''@'' # hs @ nl"
    by (simp add: ds_def assms(4))
  have "ds \<noteq> []" using assms(1,2) by (auto simp: ds_def)
  moreover have "hs \<noteq> []" using assms(5,6) by (auto simp: hs_def)
  moreover have "list_all re_digit ds"
    using assms(2,3) by (simp add: ds_def list_all_length)
  moreover have "list_all (nlm_host_char e) hs"
    using assms(5,6,7) by (simp add: hs_def list_all_length)
  moreover have "nl = [] \<or> nl = [CHR 0x0A]"
  proof (rule disjE [OF assms(8)])
    assume "k = length s"
    then show ?thesis by (simp add: nl_def)
  next
    assume a: "Suc k = length s \<and> s ! k = CHR 0x0A"
    then have kl: "k < length s" by linarith
    have "drop k s = s ! k # drop (Suc k) s"
      using Cons_nth_drop_Suc [OF kl] by (rule sym)
    moreover have "drop (Suc k) s = []"
      using a by (intro drop_all) simp
    ultimately show ?thesis using a by (simp add: nl_def)
  qed
  ultimately show ?thesis using s by blast
qed

text \<open>The scanner accepts exactly the strings in which the pattern is found.\<close>

lemma re_search_nlm_is_re_search:
  "re_search_nlm e s = re_search (nlm_connection_str_regex e) s"
proof
  assume "re_search_nlm e s"
  then obtain ds hs nl where "ds \<noteq> []" "hs \<noteq> []" "list_all re_digit ds"
      "list_all (nlm_host_char e) hs" "nl = [] \<or> nl = [CHR 0x0A]" "s = ds @ CHR ''@'' # hs @ nl"
    unfolding re_search_nlm_split by blast
  from positions_of_split [OF this] show "re_search (nlm_connection_str_regex e) s"
    unfolding re_search_def by blast
next
  assume "re_search (nlm_connection_str_regex e) s"
  then obtain i k where "re_match s (nlm_connection_str_regex e) i k"
    unfolding re_search_def by blast
  then obtain j where "0 < j" "j < length s" "\<forall>n. n < j \<longrightarrow> re_digit (s ! n)"
      "s ! j = CHR ''@''" "Suc j < k" "k \<le> length s"
      "\<forall>n. Suc j \<le> n \<and> n < k \<longrightarrow> nlm_host_char e (s ! n)"
      "k = length s \<or> (Suc k = length s \<and> s ! k = CHR 0x0A)"
    unfolding re_match_nlm_regex by blast
  from split_of_positions [OF this] show "re_search_nlm e s"
    unfolding re_search_nlm_split .
qed

lemma re_search_nlm_iff:
  "re_search_nlm e s =
     (port_at_hostname e s \<or> (\<exists>u. s = u @ [CHR 0x0A] \<and> port_at_hostname e u))"
proof -
  have "re_search_nlm e s =
     (\<exists>ds hs. ds \<noteq> [] \<and> hs \<noteq> [] \<and> list_all re_digit ds \<and> list_all (nlm_host_char e) hs \<and>
        (s = ds @ CHR ''@'' # hs \<or> s = (ds @ CHR ''@'' # hs) @ [CHR 0x0A]))"
    unfolding re_search_nlm_split by (simp, blast)
  also have "\<dots> = (port_at_hostname e s \<or> (\<exists>u. s = u @ [CHR 0x0A] \<and> port_at_hostname e u))"
    unfolding port_at_hostname_iff by blast
  finally show ?thesis .
qed

lemma port_at_hostname_no_sep:
  assumes "port_at_hostname e s"
  shows "\<forall>c \<in> set s. \<not> nlm_is_sep e c"
proof -
  from assms obtain ds hs where a: "list_all re_digit ds" "list_all (nlm_host_char e) hs"
    and s: "s = ds @ CHR ''@'' # hs"
    unfolding port_at_hostname_iff by blast
  have "\<not> nlm_is_sep e (CHR ''@'')"
    by (simp add: nlm_is_sep_def get_mlm_license_file_seperator_def split: platform.splits)
  then show ?thesis
    using a re_digit_not_sep host_char_not_sep by (auto simp: s list_all_iff)
qed

lemma validate_mlm_grammar:
  assumes "port_at_hostname e s"
  shows "validate_mlm_license_file e (Some s) = Inr (Some s)"
proof -
  have ne: "s \<noteq> []" using assms by (auto simp: port_at_hostname_def)
  have "re_split (nlm_is_sep e) s = [s]"
    using port_at_hostname_no_sep [OF assms] by (rule re_split_no_sep)
  moreover have "re_search_nlm e s"
    using assms by (simp add: re_search_nlm_iff)
  ultimately show ?thesis
    using ne by (simp add: validate_mlm_license_file_def)
qed

text \<open>
  What the code does for a non-empty string: it raises \<open>NetworkLicensingError\<close>, with
  the message that quotes the whole input, exactly when some piece is neither a file
  nor accepted by \<open>re.search\<close>.
\<close>

lemma validate_mlm_license_file_fails_iff:
  assumes "s \<noteq> []"
  shows "(validate_mlm_license_file e (Some s) = Inl err) =
           (err = NetworkLicensingError (mlm_error_message s) \<and>
            (\<exists>t \<in> set (re_split (nlm_is_sep e) s). \<not> isfile e t \<and> \<not> re_search_nlm e t))"
  using assms check_nlm_Inl [of e "mlm_error_message s" "re_split (nlm_is_sep e) s" err]
  by (auto simp: validate_mlm_license_file_def split: sum.splits)

text \<open>
  Claim C6: a non-empty string fails exactly when some piece is neither a file nor of
  the grammar (digits, \<open>@\<close>, host characters, nothing else). The code breaks this on a
  piece of the grammar followed by a newline: the string \<open>27000@server1\<close> with a newline
  after it is one piece, no file and not of the grammar, and it is returned as valid.
  The pattern ends in \<open>$\<close>, which also matches before a last newline, while the
  comment above the pattern allows no white space in a host name.
\<close>

theorem license_trailing_newline_accepted:
  "re_split (nlm_is_sep env0) (''27000@server1'' @ [CHR 0x0A]) = [''27000@server1'' @ [CHR 0x0A]] \<and>
   \<not> isfile env0 (''27000@server1'' @ [CHR 0x0A]) \<and>
   \<not> port_at_hostname env0 (''27000@server1'' @ [CHR 0x0A]) \<and>
   re_search (nlm_connection_str_regex env0) (''27000@server1'' @ [CHR 0x0A]) \<and>
   validate_mlm_license_file env0 (Some (''27000@server1'' @ [CHR 0x0A])) =
     Inr (Some (''27000@server1'' @ [CHR 0x0A]))"
  by (simp add: validate_mlm_license_file_def nlm_is_sep_def get_mlm_license_file_seperator_def
      env0_fields re_search_nlm_is_re_search [symmetric] re_search_nlm_def port_at_hostname_def
      re_digit_def nlm_host_char_def re_word_def)

text \<open>
  Claim C7: \<open>validate_mlm_license_file\<close> returns \<open>None\<close> without an error for \<open>None\<close> and
  for the empty string; whenever it succeeds on a non-empty string it returns that
  string unchanged; and every string of the grammar (one entry, no separator) is
  returned unchanged.
\<close>

theorem validate_mlm_license_file_returns_input:
  "validate_mlm_license_file e None = Inr None \<and>
   validate_mlm_license_file e (Some '''') = Inr None \<and>
   (\<forall>s r. s \<noteq> '''' \<and> validate_mlm_license_file e (Some s) = Inr r \<longrightarrow> r = Some s) \<and>
   (\<forall>s. port_at_hostname e s \<longrightarrow> validate_mlm_license_file e (Some s) = Inr (Some s))"
  using validate_mlm_grammar
  by (auto simp: validate_mlm_license_file_def split: sum.splits)

theorem validate_mlm_license_file_returns_input_witness:
  "port_at_hostname env0 ''27000@server1'' \<and>
   validate_mlm_license_file env0 (Some ''27000@server1'') = Inr (Some ''27000@server1'') \<and>
   validate_mlm_license_file env0 (Some ''27000@server1,27001@server2,27002@server3'') =
     Inr (Some ''27000@server1,27001@server2,27002@server3'')"
proof -
  have g: "port_at_hostname env0 ''27000@server1''"
    by (simp add: port_at_hostname_def re_digit_def nlm_host_char_def re_word_def env0_fields)
  have t: "validate_mlm_license_file env0 (Some ''27000@server1,27001@server2,27002@server3'') =
     Inr (Some ''27000@server1,27001@server2,27002@server3'')"
    by (simp add: validate_mlm_license_file_def nlm_is_sep_def get_mlm_license_file_seperator_def
        env0_fields re_search_nlm_def re_digit_def nlm_host_char_def re_word_def)
  from validate_mlm_license_file_returns_input [of env0] g
  have "validate_mlm_license_file env0 (Some ''27000@server1'') = Inr (Some ''27000@server1'')"
    by blast
  with g t show ?thesis by simp
qed

subsection \<open>The port\<close>


text \<open>
  Claim C8: an absent port is returned as it is. For a present port the validator
  raises \<open>FatalError\<close>, with the message that names the port and the environment
  variable, exactly when the port is an integer in range whose bind fails with
  \<open>EADDRINUSE\<close>; it raises no other \<open>FatalError\<close>; and a bind that fails with any other
  \<open>errno\<close> leaves the function as the same \<open>OSError\<close>.
\<close>

theorem validate_app_port_is_free_in_use_iff:
  "validate_app_port_is_free e None = Inr None \<and>
   (\<forall>p. (validate_app_port_is_free e (Some p) = Inl (FatalError (port_error_message e p))) =
        (\<exists>n text. int_of_port e p = Inr n \<and> 0 \<le> n \<and> n \<le> 65535 \<and>
                  sock_bind e n = Some (Some (errno_EADDRINUSE e), text))) \<and>
   (\<forall>p m. validate_app_port_is_free e (Some p) = Inl (FatalError m) \<longrightarrow>
        m = port_error_message e p) \<and>
   (\<forall>p n errno text. int_of_port e p = Inr n \<and> 0 \<le> n \<and> n \<le> 65535 \<and>
        sock_bind e n = Some (errno, text) \<and> errno \<noteq> Some (errno_EADDRINUSE e) \<longrightarrow>
        validate_app_port_is_free e (Some p) = Inl (OSError errno text))"
  by (auto simp: validate_app_port_is_free_def try_bind_port_def socket_bind_def int_of_port_def
      split: sum.splits error.splits option.splits port_value.splits prod.splits if_splits)

theorem validate_app_port_is_free_in_use_iff_witness:
  "validate_app_port_is_free env0 None = Inr None \<and>
   validate_app_port_is_free env0 (Some (PortInt 8080)) =
     Inl (FatalError ''The port 8080 is not available. Please set another value for the environment variable MWI_APP_PORT'') \<and>
   validate_app_port_is_free env0 (Some (PortStr ''80'')) =
     Inl (OSError (Some 13) ''Permission denied'') \<and>
   validate_app_port_is_free env0 (Some (PortInt 8081)) = Inr (Some (PortInt 8081))"
proof -
  note t = validate_app_port_is_free_in_use_iff [of env0]
  have m: "port_error_message env0 (PortInt 8080) =
      ''The port 8080 is not available. Please set another value for the environment variable MWI_APP_PORT''"
    by (simp add: port_error_message_def format_port_def str_of_int_def str_of_nat.simps
        env0_fields)
  have "\<exists>n text. int_of_port env0 (PortInt 8080) = Inr n \<and> 0 \<le> n \<and> n \<le> 65535 \<and>
                  sock_bind env0 n = Some (Some (errno_EADDRINUSE env0), text)"
    by (simp add: int_of_port_def env0_fields)
  with t have a: "validate_app_port_is_free env0 (Some (PortInt 8080)) =
      Inl (FatalError (port_error_message env0 (PortInt 8080)))"
    by blast
  have "int_of_port env0 (PortStr ''80'') = Inr 80 \<and> (0::int) \<le> 80 \<and> (80::int) \<le> 65535 \<and>
        sock_bind env0 80 = Some (Some 13, ''Permission denied'') \<and>
        Some 13 \<noteq> Some (errno_EADDRINUSE env0)"
    by (simp add: int_of_port_def env0_fields decimal_of_str_def re_digit_def)
  with t have b: "validate_app_port_is_free env0 (Some (PortStr ''80'')) =
      Inl (OSError (Some 13) ''Permission denied'')"
    by blast
  have c: "validate_app_port_is_free env0 (Some (PortInt 8081)) = Inr (Some (PortInt 8081))"
    by (simp add: validate_app_port_is_free_def try_bind_port_def socket_bind_def int_of_port_def
        env0_fields)
  from t a b c m show ?thesis by simp
qed

text \<open>
  Claim C10: a port given as a string that \<open>int\<close> refuses leaves the validator as the
  \<open>ValueError\<close> of the conversion: the handler catches \<open>OSError\<close> only, so the error is
  neither swallowed nor turned into a \<open>FatalError\<close>.
\<close>

theorem validate_app_port_is_free_ValueError:
  "int_of_str e s = None \<Longrightarrow>
     validate_app_port_is_free e (Some (PortStr s)) = Inl (ValueError s)"
  by (simp add: validate_app_port_is_free_def try_bind_port_def int_of_port_def)

theorem validate_app_port_is_free_ValueError_witness:
  "int_of_str env0 ''eighty'' = None \<and>
   validate_app_port_is_free env0 (Some (PortStr ''eighty'')) = Inl (ValueError ''eighty'')"
proof -
  have h: "int_of_str env0 ''eighty'' = None"
    by (simp add: env0_fields decimal_of_str_def re_digit_def)
  from validate_app_port_is_free_ValueError [OF h] h show ?thesis by simp
qed

subsection \<open>The configuration profile\<close>

lemma check_config_keys_Inr:
  "(check_config_keys config keys env_config = Inr u) =
     (\<forall>k \<in> set keys. map_of env_config k \<noteq> None)"
  by (induction keys) auto

lemma check_config_keys_Inl:
  "check_config_keys config keys env_config = Inl err \<Longrightarrow>
     \<exists>k \<in> set keys. map_of env_config k = None \<and> err = FatalError (key_missing_message k config)"
  by (induction keys) (auto split: if_splits)

lemma get_configs0:
  "get_configs env0 entry_points0 =
     [(''default'', [(''extension_name'', 1), (''header_info'', 2)]),
      (''cloud'', [(''extension_name'', 3)]),
      (''local'', [(''header_info'', 4), (''extension_name'', 5), (''extra'', 6)])]"
  by (simp add: get_configs_def entry_points0_def env0_fields ascii_lower_def)

text \<open>
  Claim C9: for a profile name whose lower-case form is in the registry (and with the
  default profile in the registry, which the specification takes as given), the
  validator raises \<open>FatalError\<close> with the message that names a key of the default
  profile missing from the profile, and the lower-case name, when some key of the
  default profile is missing from the profile's record; otherwise it returns the
  profile's record as it is.
\<close>

theorem validate_env_config_schema:
  assumes "map_of (get_configs e eps) (str_lower e name) = Some env_config"
    and "map_of (get_configs e eps) (default_config_name e) = Some default_config"
  shows "if \<exists>k \<in> set (map fst default_config). map_of env_config k = None
         then \<exists>k \<in> set (map fst default_config). map_of env_config k = None \<and>
                validate_env_config e eps name =
                  Inl (FatalError (key_missing_message k (str_lower e name)))
         else validate_env_config e eps name = Inr env_config"
proof (cases "check_config_keys (str_lower e name) (map fst default_config) env_config")
  case (Inl err)
  from check_config_keys_Inl [OF Inl] obtain k where
    k: "k \<in> set (map fst default_config)" "map_of env_config k = None"
       "err = FatalError (key_missing_message k (str_lower e name))"
    by blast
  have "validate_env_config e eps name = Inl err"
    using assms Inl by (simp add: validate_env_config_def)
  with k show ?thesis by auto
next
  case (Inr u)
  then have "\<forall>k \<in> set (map fst default_config). map_of env_config k \<noteq> None"
    by (simp only: check_config_keys_Inr)
  moreover have "validate_env_config e eps name = Inr env_config"
    using assms Inr by (simp add: validate_env_config_def)
  ultimately show ?thesis by auto
qed

theorem validate_env_config_schema_witness:
  "map_of (get_configs env0 entry_points0) (str_lower env0 ''Local'') =
     Some [(''header_info'', 4), (''extension_name'', 5), (''extra'', 6)] \<and>
   map_of (get_configs env0 entry_points0) (default_config_name env0) =
     Some [(''extension_name'', 1), (''header_info'', 2)] \<and>
   validate_env_config env0 entry_points0 ''Local'' =
     Inr [(''header_info'', 4), (''extension_name'', 5), (''extra'', 6)] \<and>
   validate_env_config env0 entry_points0 ''CLOUD'' =
     Inl (FatalError ''header_info missing in the provided cloud configuration'')"
proof -
  have l: "map_of (get_configs env0 entry_points0) (str_lower env0 ''Local'') =
     Some [(''header_info'', 4), (''extension_name'', 5), (''extra'', 6)]"
    by (simp add: get_configs0 env0_fields ascii_lower_def)
  have c: "map_of (get_configs env0 entry_points0) (str_lower env0 ''CLOUD'') =
     Some [(''extension_name'', 3)]"
    by (simp add: get_configs0 env0_fields ascii_lower_def)
  have d: "map_of (get_configs env0 entry_points0) (default_config_name env0) =
     Some [(''extension_name'', 1), (''header_info'', 2)]"
    by (simp add: get_configs0 env0_fields)
  have lc: "str_lower env0 ''CLOUD'' = ''cloud''"
    by (simp add: env0_fields ascii_lower_def)
  from validate_env_config_schema [OF l d]
  have 1: "validate_env_config env0 entry_points0 ''Local'' =
     Inr [(''header_info'', 4), (''extension_name'', 5), (''extra'', 6)]"
    by simp
  from validate_env_config_schema [OF c d]
  have 2: "validate_env_config env0 entry_points0 ''CLOUD'' =
     Inl (FatalError ''header_info missing in the provided cloud configuration'')"
    by (simp add: lc key_missing_message_def)
  from l d 1 2 show ?thesis by simp
qed

subsection \<open>The TLS key and certificate\<close>


text \<open>
  Claim C1 as stated, that an empty certificate string is treated as an absent one and
  fails with the dependency error whenever a key is given, fails: with an existing
  key file, the absent certificate raises the dependency error and the empty one is
  accepted, the pair coming back as it went in.
\<close>

theorem empty_cert_not_absent:
  "validate_ssl_key_and_cert_file env0 (Some ''/certs/key.pem'') None =
     Inl (FatalError cert_required_message) \<and>
   validate_ssl_key_and_cert_file env0 (Some ''/certs/key.pem'') (Some '''') =
     Inr (Some ''/certs/key.pem'', Some '''')"
  by (simp add: validate_ssl_key_and_cert_file_def validate_ssl_cert_file_def env0_fields)

text \<open>
  Claim C1, amended: for every key that is present, an absent certificate fails with
  the dependency error (\<open>FatalError\<close>, "MWI_SSL_CERT_FILE must be provided ..."). An
  empty certificate string is not treated as absent: it passes the certificate check,
  the dependency check (which tests for \<open>None\<close>) lets it through, and the validator
  returns the pair unchanged when the key is empty or an existing file, and fails
  with the file error that names the key otherwise.
\<close>

theorem validate_ssl_key_and_cert_file_absent_or_empty_cert:
  "validate_ssl_key_and_cert_file e (Some k) None = Inl (FatalError cert_required_message) \<and>
   validate_ssl_key_and_cert_file e (Some k) (Some '''') =
     (if k \<noteq> '''' \<and> \<not> isfile e k then Inl (FatalError (key_not_valid_message k))
      else Inr (Some k, Some ''''))"
  by (simp add: validate_ssl_key_and_cert_file_def validate_ssl_cert_file_def)

theorem validate_ssl_key_and_cert_file_absent_or_empty_cert_witness:
  "validate_ssl_key_and_cert_file env0 (Some ''/certs/missing.pem'') None =
     Inl (FatalError ''MWI_SSL_CERT_FILE must be provided to use the MWI_SSL_KEY_FILE'') \<and>
   validate_ssl_key_and_cert_file env0 (Some ''/certs/missing.pem'') (Some '''') =
     Inl (FatalError ''MWI_SSL_KEY_FILE is not a valid file: /certs/missing.pem'')"
  using validate_ssl_key_and_cert_file_absent_or_empty_cert [of env0 "''/certs/missing.pem''"]
  by (simp add: env0_fields cert_required_message_def key_not_valid_message_def)

subsection \<open>The installation root\<close>


text \<open>
  Claim C5 as stated, that the error raised for a root without the version file
  carries the base message with the missing-file text appended, fails: for an
  existing directory without the file the raised message is the base message alone.
\<close>

theorem missing_descriptor_text_not_raised:
  "is_valid_path env0 ''/opt/empty'' \<and>
   \<not> isfile env0 (joinpath env0 ''/opt/empty'' (VERSION_INFO_FILE_NAME env0)) \<and>
   snd (terminate_on_invalid_matlab_root_path env0 ''/opt/empty'' True) =
     Inl (MatlabInstallError
       (''Unable to find MATLAB at: /opt/empty'' @ [CHR 0x0A] @
        ''Edit the environment variable MWI_CUSTOM_MATLAB_ROOT to the correct path, and restart matlab-proxy.'')) \<and>
   snd (terminate_on_invalid_matlab_root_path env0 ''/opt/empty'' True) \<noteq>
     Inl (MatlabInstallError
       (matlab_root_error_string env0 ''/opt/empty'' True @ failed_to_locate_text env0))"
  by (simp add: terminate_on_invalid_matlab_root_path_def Let_def env0_fields
      matlab_root_error_string_def failed_to_locate_text_def)

text \<open>
  Claim C5, amended: for every root path that exists but does not directly contain
  the version file, the verifier raises \<open>MatlabInstallError\<close> whose message is the base
  not-found message alone (the one a missing root gets); the text about the missing
  version file is appended only to the line logged at error level.
\<close>

theorem terminate_on_invalid_matlab_root_path_missing_descriptor:
  "is_valid_path e root \<and> \<not> isfile e (joinpath e root (VERSION_INFO_FILE_NAME e)) \<Longrightarrow>
   terminate_on_invalid_matlab_root_path e root custom =
     ([root_exists_log root,
       (ERROR, matlab_root_error_string e root custom @ failed_to_locate_text e)],
      Inl (MatlabInstallError (matlab_root_error_string e root custom)))"
  by (simp add: terminate_on_invalid_matlab_root_path_def Let_def)

theorem terminate_on_invalid_matlab_root_path_missing_descriptor_witness:
  "is_valid_path env0 ''/opt/empty'' \<and>
   \<not> isfile env0 (joinpath env0 ''/opt/empty'' (VERSION_INFO_FILE_NAME env0)) \<and>
   terminate_on_invalid_matlab_root_path env0 ''/opt/empty'' False =
     ([root_exists_log ''/opt/empty'',
       (ERROR, matlab_root_error_string env0 ''/opt/empty'' False @ failed_to_locate_text env0)],
      Inl (MatlabInstallError (matlab_root_error_string env0 ''/opt/empty'' False)))"
proof -
  have h: "is_valid_path env0 ''/opt/empty'' \<and>
      \<not> isfile env0 (joinpath env0 ''/opt/empty'' (VERSION_INFO_FILE_NAME env0))"
    by (simp add: env0_fields)
  from terminate_on_invalid_matlab_root_path_missing_descriptor [OF h, of False] h
  show ?thesis by simp
qed

subsection \<open>The classes of the errors\<close>







end
